theory Spec2Isabelle
  imports Main
begin

section \<open>The header wrapper.h of sdif-sys\<close>

text \<open>
  The repository's C source is one file, \<^verbatim>\<open>src/sdif-sys/wrapper.h\<close>: the header handed to
  the binding generator. It holds no C declarations, only preprocessor lines, so its
  meaning is what the C preprocessor does with it: a transformer of the preprocessor's
  state (the macro table and the declarations passed on to the compiler).

  The model has three layers, each executable:
  \<^item> the text of the file, line by line, as it is in the repository;
  \<^item> the lexing of that text into preprocessor lines (comments removed, directives
    recognised);
  \<^item> the preprocessor run over those lines.
  The header \<^verbatim>\<open><sdif.h>\<close> belongs to the native SDIF library and is not part of the
  repository; what including it does is a parameter of the model.
\<close>

subsection \<open>The text of the file\<close>

text \<open>The fourteen lines of \<^verbatim>\<open>wrapper.h\<close>, verbatim (the last one has no newline).\<close>

definition wrapper_h_text :: "string list" where
  "wrapper_h_text =
    [''#ifndef WRAPPER_H'',
     ''#define WRAPPER_H'',
     '''',
     ''/*'',
     '' * SDIF Library Wrapper Header for Bindgen'',
     '' *'',
     '' * This header includes the necessary SDIF headers for generating'',
     '' * Rust FFI bindings via bindgen.'',
     '' */'',
     '''',
     ''/* SDIF main header - this typically includes all necessary sub-headers */'',
     ''#include <sdif.h>'',
     '''',
     ''#endif /* WRAPPER_H */'']"

subsection \<open>Preprocessor lines\<close>

text \<open>
  The kinds of line the header is made of. \<open>Blank\<close> is a line that is empty once its
  comments are removed; \<open>Text\<close> is any other line that is not a directive, which the
  preprocessor passes on to the compiler: a declaration or a part of one.
\<close>

datatype pp_line =
    Blank
  | IfNDef string
  | Define string string
  | IncludeSys string
  | EndIf
  | Text string

datatype pp_error =
    UnterminatedComment
  | UnsupportedDirective string
  | MalformedDirective string
  | EndifWithoutIf
  | UnterminatedConditional
  | HeaderNotFound string

subsection \<open>Lexing\<close>

text \<open>
  Comments: \<open>strip_comments c s\<close> removes the block comments of one physical line \<open>s\<close>,
  where \<open>c\<close> says whether the line starts inside a comment, and returns the remaining
  text with whether the line ends inside a comment. A comment counts as one space.
\<close>

fun strip_comments :: "bool \<Rightarrow> string \<Rightarrow> string \<times> bool" where
  "strip_comments c [] = ([], c)"
| "strip_comments c [x] = (if c then [] else [x], c)"
| "strip_comments c (x # y # s) =
     (if c then
        (if x = CHR ''*'' \<and> y = CHR ''/''
         then (case strip_comments False s of (r, c') \<Rightarrow> (CHR '' '' # r, c'))
         else strip_comments True (y # s))
      else
        (if x = CHR ''/'' \<and> y = CHR ''*''
         then strip_comments True s
         else (case strip_comments False (y # s) of (r, c') \<Rightarrow> (x # r, c'))))"

definition is_space :: "char \<Rightarrow> bool" where
  "is_space x = (x = CHR '' '' \<or> x = CHR 0x09)"

definition is_ident_char :: "char \<Rightarrow> bool" where
  "is_ident_char x =
     (x \<in> set ''ABCDEFGHIJKLMNOPQRSTUVWXYZabcdefghijklmnopqrstuvwxyz0123456789_'')"

definition is_ident :: "string \<Rightarrow> bool" where
  "is_ident s = (s \<noteq> [] \<and> list_all is_ident_char s)"

definition trim :: "string \<Rightarrow> string" where
  "trim s = rev (dropWhile is_space (rev (dropWhile is_space s)))"

text \<open>
  A directive: the text after the \<open>#\<close>. Only the directives the header uses are
  recognised (\<open>ifndef\<close>, \<open>define\<close> of an object-like macro, \<open>include\<close> of a header
  in angle brackets, \<open>endif\<close>); any other is an error of the model, not a guess.
\<close>

definition directive :: "string \<Rightarrow> pp_error + pp_line" where
  "directive s =
     (let s' = dropWhile is_space s;
          kw = takeWhile is_ident_char s';
          arg = trim (dropWhile is_ident_char s')
      in if kw = ''ifndef'' then
           (if is_ident arg then Inr (IfNDef arg) else Inl (MalformedDirective kw))
         else if kw = ''define'' then
           (let name = takeWhile is_ident_char arg;
                rest = dropWhile is_ident_char arg
            in if name \<noteq> [] \<and> (rest = [] \<or> is_space (hd rest))
               then Inr (Define name (trim rest))
               else Inl (MalformedDirective kw))
         else if kw = ''include'' then
           (if 2 \<le> length arg \<and> hd arg = CHR ''<'' \<and> last arg = CHR ''>''
            then Inr (IncludeSys (butlast (tl arg)))
            else Inl (MalformedDirective kw))
         else if kw = ''endif'' then
           (if arg = [] then Inr EndIf else Inl (MalformedDirective kw))
         else Inl (UnsupportedDirective kw))"

definition classify :: "string \<Rightarrow> pp_error + pp_line" where
  "classify s =
     (let t = trim s
      in if t = [] then Inr Blank
         else if hd t = CHR ''#'' then directive (tl t)
         else Inr (Text t))"

fun lex_lines :: "bool \<Rightarrow> string list \<Rightarrow> pp_error + pp_line list" where
  "lex_lines c [] = (if c then Inl UnterminatedComment else Inr [])"
| "lex_lines c (s # ss) =
     (case strip_comments c s of
        (t, c') \<Rightarrow>
          (case classify t of
             Inl e \<Rightarrow> Inl e
           | Inr l \<Rightarrow>
               (case lex_lines c' ss of
                  Inl e \<Rightarrow> Inl e
                | Inr ls \<Rightarrow> Inr (l # ls))))"

subsection \<open>The preprocessor\<close>

text \<open>
  The state of the preprocessor: the macro table (name to replacement text), the
  declarations passed on so far, and the headers pulled in so far, in order.
\<close>

type_synonym macro_table = "string \<rightharpoonup> string"

record pp_state =
  macros :: macro_table
  decls :: "string list"
  pulled :: "string list"

text \<open>
  The headers outside the repository: including the header \<open>h\<close> with the macro table
  \<open>m\<close> is \<open>H h m\<close>, \<open>None\<close> when there is no such header, otherwise the macro table it
  leaves and the declarations it contributes.
\<close>

type_synonym headers = "string \<Rightarrow> macro_table \<Rightarrow> (macro_table \<times> string list) option"

text \<open>
  The stack of open conditionals: each entry says whether the lines of that group are
  processed. A group inside a skipped group is skipped, so the top entry decides.
\<close>

definition active :: "bool list \<Rightarrow> bool" where
  "active stk = (case stk of [] \<Rightarrow> True | b # _ \<Rightarrow> b)"

text \<open>
  One line. In a skipped group only the nesting of conditionals is followed. A macro
  defined again takes the new replacement text. A text line is passed on as it is:
  macro replacement inside text is not modelled (the header has no text line).
\<close>

fun pp_step :: "headers \<Rightarrow> pp_line \<Rightarrow> bool list \<times> pp_state \<Rightarrow> pp_error + (bool list \<times> pp_state)" where
  "pp_step H Blank (stk, st) = Inr (stk, st)"
| "pp_step H (IfNDef n) (stk, st) = Inr ((active stk \<and> macros st n = None) # stk, st)"
| "pp_step H EndIf (stk, st) =
     (case stk of [] \<Rightarrow> Inl EndifWithoutIf | _ # stk' \<Rightarrow> Inr (stk', st))"
| "pp_step H (Define n b) (stk, st) =
     (if active stk then Inr (stk, st\<lparr>macros := (macros st)(n \<mapsto> b)\<rparr>) else Inr (stk, st))"
| "pp_step H (IncludeSys h) (stk, st) =
     (if active stk then
        (case H h (macros st) of
           None \<Rightarrow> Inl (HeaderNotFound h)
         | Some (m, ds) \<Rightarrow>
             Inr (stk, st\<lparr>macros := m, decls := decls st @ ds, pulled := pulled st @ [h]\<rparr>))
      else Inr (stk, st))"
| "pp_step H (Text t) (stk, st) =
     (if active stk then Inr (stk, st\<lparr>decls := decls st @ [t]\<rparr>) else Inr (stk, st))"

fun pp_lines :: "headers \<Rightarrow> pp_line list \<Rightarrow> bool list \<times> pp_state \<Rightarrow> pp_error + pp_state" where
  "pp_lines H [] (stk, st) = (if stk = [] then Inr st else Inl UnterminatedConditional)"
| "pp_lines H (l # ls) (stk, st) =
     (case pp_step H l (stk, st) of
        Inl e \<Rightarrow> Inl e
      | Inr cfg \<Rightarrow> pp_lines H ls cfg)"

text \<open>Processing a file given as text: lex it, then run the lines with no open conditional.\<close>

definition pp_file :: "headers \<Rightarrow> string list \<Rightarrow> pp_state \<Rightarrow> pp_error + pp_state" where
  "pp_file H txt st =
     (case lex_lines False txt of
        Inl e \<Rightarrow> Inl e
      | Inr ls \<Rightarrow> pp_lines H ls ([], st))"

text \<open>The header itself: what \<^verbatim>\<open>#include "wrapper.h"\<close> does to the preprocessor's state.\<close>

definition wrapper_h :: "headers \<Rightarrow> pp_state \<Rightarrow> pp_error + pp_state" where
  "wrapper_h H st = pp_file H wrapper_h_text st"

text \<open>
  The header included \<open>n\<close> times in a row in one translation unit; an error of the
  preprocessor is fatal and stops the run.
\<close>

fun wrapper_h_times :: "headers \<Rightarrow> nat \<Rightarrow> pp_state \<Rightarrow> pp_error + pp_state" where
  "wrapper_h_times H 0 st = Inr st"
| "wrapper_h_times H (Suc n) st =
     (case wrapper_h H st of
        Inl e \<Rightarrow> Inl e
      | Inr st' \<Rightarrow> wrapper_h_times H n st')"

section \<open>What the header does\<close>

subsection \<open>The lines of the header\<close>

text \<open>
  Lexed, the header is four directives (lines 1, 2, 12 and 14) among blank and comment
  lines: there is no text line, so nothing of the header's own reaches the compiler.
\<close>

lemma wrapper_h_lexed:
  "lex_lines False wrapper_h_text =
     Inr [IfNDef ''WRAPPER_H'', Define ''WRAPPER_H'' '''', Blank,
          Blank, Blank, Blank, Blank, Blank, Blank,
          Blank, Blank, IncludeSys ''sdif.h'', Blank, EndIf]"
  by code_simp

subsection \<open>The two runs of the header\<close>

text \<open>
  With the guard \<^verbatim>\<open>WRAPPER_H\<close> not defined, the header defines it and includes
  \<^verbatim>\<open><sdif.h>\<close>; with the guard defined, every line of the header is skipped.
\<close>

lemma wrapper_h_first:
  "macros st ''WRAPPER_H'' = None \<Longrightarrow>
   wrapper_h H st =
     (case H ''sdif.h'' ((macros st)(''WRAPPER_H'' \<mapsto> '''')) of
        None \<Rightarrow> Inl (HeaderNotFound ''sdif.h'')
      | Some (m, ds) \<Rightarrow>
          Inr (st\<lparr>macros := m, decls := decls st @ ds,
                   pulled := pulled st @ [''sdif.h'']\<rparr>))"
  by (simp add: wrapper_h_def pp_file_def wrapper_h_lexed active_def split: option.splits)

lemma wrapper_h_again:
  "macros st ''WRAPPER_H'' \<noteq> None \<Longrightarrow> wrapper_h H st = Inr st"
  by (cases "macros st ''WRAPPER_H''")
     (simp_all add: wrapper_h_def pp_file_def wrapper_h_lexed active_def)

lemma wrapper_h_times_again:
  "macros st ''WRAPPER_H'' \<noteq> None \<Longrightarrow> wrapper_h_times H n st = Inr st"
  by (induction n) (simp_all add: wrapper_h_again)

text \<open>
  If \<^verbatim>\<open><sdif.h>\<close> leaves a defined guard defined, the guard is defined after every
  successful run of the header.
\<close>

lemma wrapper_h_leaves_guard:
  assumes keeps: "\<And>m m' ds. H ''sdif.h'' m = Some (m', ds) \<Longrightarrow>
                    m ''WRAPPER_H'' \<noteq> None \<Longrightarrow> m' ''WRAPPER_H'' \<noteq> None"
    and ok: "wrapper_h H st = Inr st'"
  shows "macros st' ''WRAPPER_H'' \<noteq> None"
proof (cases "macros st ''WRAPPER_H''")
  case None
  from ok obtain m ds
    where h: "H ''sdif.h'' ((macros st)(''WRAPPER_H'' \<mapsto> '''')) = Some (m, ds)"
      and st': "st' = st\<lparr>macros := m, decls := decls st @ ds,
                          pulled := pulled st @ [''sdif.h'']\<rparr>"
    by (auto simp: wrapper_h_first [OF None] split: option.splits)
  have "m ''WRAPPER_H'' \<noteq> None"
    by (rule keeps [OF h]) simp
  with st' show ?thesis by simp
next
  case (Some b)
  then have "wrapper_h H st = Inr st"
    by (simp add: wrapper_h_again)
  with ok Some show ?thesis by simp
qed

lemma wrapper_h_pulled:
  assumes ok: "wrapper_h H st = Inr st'"
  shows "pulled st' = pulled st \<or> pulled st' = pulled st @ [''sdif.h'']"
proof (cases "macros st ''WRAPPER_H''")
  case None
  with ok show ?thesis
    by (auto simp: wrapper_h_first [OF None] split: option.splits)
next
  case (Some b)
  then have "wrapper_h H st = Inr st"
    by (simp add: wrapper_h_again)
  with ok show ?thesis by simp
qed

section \<open>The claims about the header\<close>

text \<open>
  Claim C1. The file is a header of exactly 14 lines whose only effect is to include
  \<^verbatim>\<open><sdif.h>\<close>. Its lines are the directives \<^verbatim>\<open>#ifndef WRAPPER_H\<close>,
  \<^verbatim>\<open>#define WRAPPER_H\<close>, \<^verbatim>\<open>#include <sdif.h>\<close> and \<^verbatim>\<open>#endif\<close>, and blank or comment
  lines: no line is text passed on to the compiler, so the header has no declaration,
  definition or logic of its own. Preprocessed where \<^verbatim>\<open>WRAPPER_H\<close> is not yet defined, it
  fails exactly when \<^verbatim>\<open><sdif.h>\<close> is not found, and otherwise the declarations it adds
  are exactly those \<^verbatim>\<open><sdif.h>\<close> contributes, and the macro table it leaves is the one
  \<^verbatim>\<open><sdif.h>\<close> leaves when started from the given table with the guard \<^verbatim>\<open>WRAPPER_H\<close>
  added (defined with an empty replacement text).
\<close>

theorem wrapper_h_only_includes_sdif_h:
  "length wrapper_h_text = 14 \<and>
   lex_lines False wrapper_h_text =
     Inr [IfNDef ''WRAPPER_H'', Define ''WRAPPER_H'' '''', Blank,
          Blank, Blank, Blank, Blank, Blank, Blank,
          Blank, Blank, IncludeSys ''sdif.h'', Blank, EndIf] \<and>
   (macros st ''WRAPPER_H'' = None \<longrightarrow>
    wrapper_h H st =
      (case H ''sdif.h'' ((macros st)(''WRAPPER_H'' \<mapsto> '''')) of
         None \<Rightarrow> Inl (HeaderNotFound ''sdif.h'')
       | Some (m, ds) \<Rightarrow>
           Inr (st\<lparr>macros := m, decls := decls st @ ds,
                    pulled := pulled st @ [''sdif.h'']\<rparr>)))"
proof (intro conjI impI)
  show "length wrapper_h_text = 14"
    by (simp add: wrapper_h_text_def)
next
  show "lex_lines False wrapper_h_text =
     Inr [IfNDef ''WRAPPER_H'', Define ''WRAPPER_H'' '''', Blank,
          Blank, Blank, Blank, Blank, Blank, Blank,
          Blank, Blank, IncludeSys ''sdif.h'', Blank, EndIf]"
    by (rule wrapper_h_lexed)
next
  assume "macros st ''WRAPPER_H'' = None"
  then show "wrapper_h H st =
      (case H ''sdif.h'' ((macros st)(''WRAPPER_H'' \<mapsto> '''')) of
         None \<Rightarrow> Inl (HeaderNotFound ''sdif.h'')
       | Some (m, ds) \<Rightarrow>
           Inr (st\<lparr>macros := m, decls := decls st @ ds,
                    pulled := pulled st @ [''sdif.h'']\<rparr>))"
    by (rule wrapper_h_first)
qed

text \<open>
  The theorem at a concrete input: a translation unit that starts with no macro and no
  declaration, and an \<^verbatim>\<open><sdif.h>\<close> that defines one macro and declares one function.
\<close>

theorem wrapper_h_only_includes_sdif_h_witness:
  "length wrapper_h_text = 14 \<and>
   wrapper_h
     (\<lambda>h m. if h = ''sdif.h''
            then Some (m(''SDIF_H'' \<mapsto> ''1''), [''int f(void);'']) else None)
     \<lparr>macros = Map.empty, decls = [], pulled = []\<rparr> =
   Inr \<lparr>macros = [''WRAPPER_H'' \<mapsto> '''', ''SDIF_H'' \<mapsto> ''1''],
        decls = [''int f(void);''], pulled = [''sdif.h'']\<rparr>"
  using wrapper_h_only_includes_sdif_h
    [of "\<lparr>macros = Map.empty, decls = [], pulled = []\<rparr>"
        "\<lambda>h m. if h = ''sdif.h''
               then Some (m(''SDIF_H'' \<mapsto> ''1''), [''int f(void);'']) else None"]
  by simp

text \<open>
  Claim C10. Including the header more than once in one translation unit is the same as
  including it once; the guard \<^verbatim>\<open>WRAPPER_H\<close> makes every repeated inclusion a no-op.
  \<^item> Wherever \<^verbatim>\<open>WRAPPER_H\<close> is defined, whatever was processed before and whatever the
    other headers are, including the header returns the state unchanged: no macro, no
    declaration, no error, and \<^verbatim>\<open><sdif.h>\<close> is not pulled in.
  \<^item> A successful inclusion leaves \<^verbatim>\<open>WRAPPER_H\<close> defined, and has pulled in
    \<^verbatim>\<open><sdif.h>\<close> once or not at all.
  \<^item> So, for every \<open>n > 0\<close>, \<open>n\<close> inclusions in a row give the result of one inclusion
    (the same state, or the same error), and a further inclusion changes nothing.
  The guard works only while it stays defined, so the second and third part are for an
  \<^verbatim>\<open><sdif.h>\<close> that does not undefine \<^verbatim>\<open>WRAPPER_H\<close>: that header is outside the
  repository.
\<close>

theorem wrapper_h_include_guard_idempotent:
  assumes keeps: "\<And>m m' ds. H ''sdif.h'' m = Some (m', ds) \<Longrightarrow>
                    m ''WRAPPER_H'' \<noteq> None \<Longrightarrow> m' ''WRAPPER_H'' \<noteq> None"
    and n: "0 < n"
  shows "(\<forall>G s. macros s ''WRAPPER_H'' \<noteq> None \<longrightarrow> wrapper_h G s = Inr s) \<and>
         (\<forall>s s'. wrapper_h H s = Inr s' \<longrightarrow>
            macros s' ''WRAPPER_H'' \<noteq> None \<and>
            (pulled s' = pulled s \<or> pulled s' = pulled s @ [''sdif.h''])) \<and>
         wrapper_h_times H n st = wrapper_h H st \<and>
         (\<forall>st'. wrapper_h_times H n st = Inr st' \<longrightarrow>
            (pulled st' = pulled st \<or> pulled st' = pulled st @ [''sdif.h'']) \<and>
            wrapper_h H st' = Inr st')"
proof -
  have skip: "wrapper_h G s = Inr s" if "macros s ''WRAPPER_H'' \<noteq> None" for G s
    using that by (rule wrapper_h_again)
  have leaves: "macros s' ''WRAPPER_H'' \<noteq> None \<and>
                (pulled s' = pulled s \<or> pulled s' = pulled s @ [''sdif.h''])"
    if ok: "wrapper_h H s = Inr s'" for s s'
  proof
    from keeps ok show "macros s' ''WRAPPER_H'' \<noteq> None"
      by (rule wrapper_h_leaves_guard)
  next
    from ok show "pulled s' = pulled s \<or> pulled s' = pulled s @ [''sdif.h'']"
      by (rule wrapper_h_pulled)
  qed
  from n obtain k where k: "n = Suc k"
    by (cases n) simp_all
  have once: "wrapper_h_times H n st = wrapper_h H st"
  proof (cases "wrapper_h H st")
    case (Inl e)
    with k show ?thesis by simp
  next
    case (Inr st1)
    then have "macros st1 ''WRAPPER_H'' \<noteq> None"
      using leaves by blast
    then have "wrapper_h_times H k st1 = Inr st1"
      by (rule wrapper_h_times_again)
    with k Inr show ?thesis by simp
  qed
  have rest: "(pulled st' = pulled st \<or> pulled st' = pulled st @ [''sdif.h'']) \<and>
              wrapper_h H st' = Inr st'"
    if "wrapper_h_times H n st = Inr st'" for st'
  proof -
    from that once have ok: "wrapper_h H st = Inr st'" by simp
    with leaves have "macros st' ''WRAPPER_H'' \<noteq> None" by blast
    then have "wrapper_h H st' = Inr st'"
      by (rule skip)
    with leaves [OF ok] show ?thesis by simp
  qed
  from skip leaves once rest show ?thesis by blast
qed

text \<open>
  The theorem at a concrete input, with an \<^verbatim>\<open><sdif.h>\<close> that defines one macro and
  declares one function: three inclusions in a row from the empty state are one
  inclusion; and a later inclusion, after the unit has defined a macro \<^verbatim>\<open>Z\<close> and passed
  on a declaration of its own, changes nothing and does not pull \<^verbatim>\<open><sdif.h>\<close> again.
\<close>

theorem wrapper_h_include_guard_idempotent_witness:
  "wrapper_h_times
     (\<lambda>h m. if h = ''sdif.h''
            then Some (m(''SDIF_H'' \<mapsto> ''1''), [''int f(void);'']) else None)
     3 \<lparr>macros = Map.empty, decls = [], pulled = []\<rparr> =
   wrapper_h
     (\<lambda>h m. if h = ''sdif.h''
            then Some (m(''SDIF_H'' \<mapsto> ''1''), [''int f(void);'']) else None)
     \<lparr>macros = Map.empty, decls = [], pulled = []\<rparr> \<and>
   wrapper_h
     (\<lambda>h m. if h = ''sdif.h''
            then Some (m(''SDIF_H'' \<mapsto> ''1''), [''int f(void);'']) else None)
     \<lparr>macros = Map.empty, decls = [], pulled = []\<rparr> =
   Inr \<lparr>macros = [''WRAPPER_H'' \<mapsto> '''', ''SDIF_H'' \<mapsto> ''1''],
        decls = [''int f(void);''], pulled = [''sdif.h'']\<rparr> \<and>
   wrapper_h
     (\<lambda>h m. if h = ''sdif.h''
            then Some (m(''SDIF_H'' \<mapsto> ''1''), [''int f(void);'']) else None)
     \<lparr>macros = [''WRAPPER_H'' \<mapsto> '''', ''SDIF_H'' \<mapsto> ''1'', ''Z'' \<mapsto> ''1''],
      decls = [''int f(void);'', ''int g(void);''], pulled = [''sdif.h'']\<rparr> =
   Inr \<lparr>macros = [''WRAPPER_H'' \<mapsto> '''', ''SDIF_H'' \<mapsto> ''1'', ''Z'' \<mapsto> ''1''],
        decls = [''int f(void);'', ''int g(void);''], pulled = [''sdif.h'']\<rparr>"
proof -
  let ?H = "\<lambda>h m. if h = ''sdif.h''
             then Some (m(''SDIF_H'' \<mapsto> ''1''), [''int f(void);'']) else None"
  let ?st = "\<lparr>macros = Map.empty, decls = [], pulled = []\<rparr>"
  let ?st2 = "\<lparr>macros = [''WRAPPER_H'' \<mapsto> '''', ''SDIF_H'' \<mapsto> ''1'', ''Z'' \<mapsto> ''1''],
              decls = [''int f(void);'', ''int g(void);''], pulled = [''sdif.h'']\<rparr>"
  have all: "(\<forall>G s. macros s ''WRAPPER_H'' \<noteq> None \<longrightarrow> wrapper_h G s = Inr s) \<and>
         (\<forall>s s'. wrapper_h ?H s = Inr s' \<longrightarrow>
            macros s' ''WRAPPER_H'' \<noteq> None \<and>
            (pulled s' = pulled s \<or> pulled s' = pulled s @ [''sdif.h''])) \<and>
         wrapper_h_times ?H 3 ?st = wrapper_h ?H ?st \<and>
         (\<forall>st'. wrapper_h_times ?H 3 ?st = Inr st' \<longrightarrow>
            (pulled st' = pulled ?st \<or> pulled st' = pulled ?st @ [''sdif.h'']) \<and>
            wrapper_h ?H st' = Inr st')"
    by (rule wrapper_h_include_guard_idempotent [of ?H 3 ?st]) (auto split: if_splits)
  from all have times: "wrapper_h_times ?H 3 ?st = wrapper_h ?H ?st"
    by blast
  have first: "wrapper_h ?H ?st =
     Inr \<lparr>macros = [''WRAPPER_H'' \<mapsto> '''', ''SDIF_H'' \<mapsto> ''1''],
          decls = [''int f(void);''], pulled = [''sdif.h'']\<rparr>"
    by (simp add: wrapper_h_first)
  have defined: "macros ?st2 ''WRAPPER_H'' \<noteq> None"
    by simp
  from all have "macros ?st2 ''WRAPPER_H'' \<noteq> None \<longrightarrow> wrapper_h ?H ?st2 = Inr ?st2"
    by blast
  with defined have later: "wrapper_h ?H ?st2 = Inr ?st2"
    by blast
  from times first later show ?thesis
    by simp
qed

end
